theory Spec2Isabelle
  imports Complex_Main "HOL-Library.Multiset"
begin

section \<open>The alignment model of mauve-viewer.js\<close>

text \<open>
  A region is one JSON record of the input (\<open>start\<close>, \<open>end\<close>, \<open>strand\<close>,
  \<open>lcb_idx\<close>, \<open>name\<close>), to which \<open>getGenomeRegions\<close> adds \<open>id\<close> and
  \<open>groupID\<close>, and \<open>hideTrack\<close> the flag \<open>hidden\<close>. The strand is the string of
  the input: the code compares it with \<open>'+'\<close> and \<open>'-'\<close> and never checks that it is
  one of the two. Sequence coordinates and track indices are integers. A deleted or
  never set \<open>hidden\<close> property is the flag \<open>False\<close>. The fields \<open>end\<close> and \<open>id\<close>
  are \<open>end_pos\<close> and \<open>region_id\<close> here.
\<close>

record region =
  start :: int
  end_pos :: int
  strand :: string
  lcb_idx :: int
  name :: string
  region_id :: nat
  groupID :: nat
  hidden :: bool

text \<open>
  The viewer: \<open>data\<close> is the list of LCBs (alignment groups), each a list of regions;
  \<open>genomeRegions\<close> maps a track index to the regions of that track. Its arrays hold
  the same objects as \<open>data\<close>, so the model keeps their ids, which
  \<open>getGenomeRegions\<close> makes unique. A missing key (\<open>undefined\<close>) is \<open>None\<close>.
  \<open>render\<close> rebuilds the drawing from these fields and changes none of them.
\<close>

record viewer =
  data :: "region list list"
  genomeRegions :: "int \<rightharpoonup> nat list"
  trackCount :: nat
  hiddenTracks :: "int list"

subsection \<open>getGenomeRegions and init\<close>

text \<open>
  The inner \<open>forEach\<close> of \<open>getGenomeRegions\<close> over one LCB: \<open>n\<close> is the counter
  \<open>regionID\<close>, \<open>g\<close> the index of the LCB, \<open>m\<close> the object \<open>regions\<close>.
\<close>

fun labelRegions ::
  "nat \<Rightarrow> nat \<Rightarrow> (int \<rightharpoonup> nat list) \<Rightarrow> region list \<Rightarrow> region list \<times> nat \<times> (int \<rightharpoonup> nat list)"
where
  "labelRegions g n m [] = ([], n, m)"
| "labelRegions g n m (r # rs) =
     (let n' = n + 1;
          r' = r\<lparr>region_id := n', groupID := g\<rparr>;
          m' = (case m (lcb_idx r) of
                  Some ids \<Rightarrow> m(lcb_idx r \<mapsto> ids @ [n'])
                | None \<Rightarrow> m(lcb_idx r \<mapsto> [n']))
      in case labelRegions g n' m' rs of (rs', k, m'') \<Rightarrow> (r' # rs', k, m''))"

text \<open>The outer \<open>forEach\<close>, over the LCBs with their indices.\<close>

fun labelLcbs ::
  "nat \<Rightarrow> nat \<Rightarrow> (int \<rightharpoonup> nat list) \<Rightarrow> region list list \<Rightarrow> region list list \<times> nat \<times> (int \<rightharpoonup> nat list)"
where
  "labelLcbs g n m [] = ([], n, m)"
| "labelLcbs g n m (lcb # lcbs) =
     (case labelRegions g n m lcb of
        (lcb', n', m') \<Rightarrow>
          (case labelLcbs (g + 1) n' m' lcbs of (lcbs', k, m'') \<Rightarrow> (lcb' # lcbs', k, m'')))"

definition getGenomeRegions :: "region list list \<Rightarrow> region list list \<times> nat \<times> (int \<rightharpoonup> nat list)" where
  "getGenomeRegions lcbs = labelLcbs 0 0 Map.empty lcbs"

subsection \<open>setReference\<close>

text \<open>
  The first inner \<open>forEach\<close> of \<open>setReference\<close>: every region of track \<open>i\<close> whose
  strand is not \<open>'+'\<close> gets \<open>'+'\<close>, and the flag \<open>flipped\<close> is raised.
\<close>

fun markReference :: "int \<Rightarrow> bool \<Rightarrow> region list \<Rightarrow> region list \<times> bool" where
  "markReference i flipped [] = ([], flipped)"
| "markReference i flipped (r # rs) =
     (if lcb_idx r \<noteq> i then
        (case markReference i flipped rs of (rs', f) \<Rightarrow> (r # rs', f))
      else if strand r \<noteq> ''+'' then
        (case markReference i True rs of (rs', f) \<Rightarrow> (r\<lparr>strand := ''+''\<rparr> # rs', f))
      else
        (case markReference i flipped rs of (rs', f) \<Rightarrow> (r # rs', f)))"

text \<open>The second inner \<open>forEach\<close>: every region of another track has its strand toggled.\<close>

fun flipOthers :: "int \<Rightarrow> region list \<Rightarrow> region list" where
  "flipOthers i [] = []"
| "flipOthers i (r # rs) =
     (if lcb_idx r = i then r
      else r\<lparr>strand := (if strand r = ''-'' then ''+'' else ''-'')\<rparr>) # flipOthers i rs"

text \<open>The body of the outer \<open>forEach\<close>, for one LCB.\<close>

definition setReferenceLcb :: "int \<Rightarrow> region list \<Rightarrow> region list" where
  "setReferenceLcb i lcb =
     (case markReference i False lcb of
        (lcb', flipped) \<Rightarrow> if \<not> flipped then lcb' else flipOthers i lcb')"

definition setReference :: "int \<Rightarrow> viewer \<Rightarrow> viewer" where
  "setReference i v = v\<lparr>data := map (setReferenceLcb i) (data v)\<rparr>"

text \<open>
  \<open>init\<close>: the regions are labelled, the number of tracks is the number of keys of
  \<open>genomeRegions\<close> (the distinct track indices of the input), and track 1 becomes the
  reference.
\<close>

definition init :: "region list list \<Rightarrow> viewer" where
  "init lcbs =
     (case getGenomeRegions lcbs of
        (lcbs', k, m) \<Rightarrow>
          setReference 1
            \<lparr>data = lcbs', genomeRegions = m,
             trackCount = length (remdups (map lcb_idx (concat lcbs))),
             hiddenTracks = []\<rparr>)"

subsection \<open>Reordering tracks\<close>

definition swapTrack :: "int \<Rightarrow> int \<Rightarrow> viewer \<Rightarrow> viewer" where
  "swapTrack i newID v =
     (let swapTrack' = genomeRegions v newID;
          m = (genomeRegions v)(newID := genomeRegions v i)
      in v\<lparr>genomeRegions := m(i := swapTrack')\<rparr>)"

text \<open>The inner \<open>forEach\<close> of \<open>swapBackbones\<close>, on one region.\<close>

definition relabel :: "int \<Rightarrow> int \<Rightarrow> region \<Rightarrow> region" where
  "relabel oldID newID r =
     (if lcb_idx r = oldID then r\<lparr>lcb_idx := newID\<rparr>
      else if lcb_idx r = newID then r\<lparr>lcb_idx := oldID\<rparr>
      else r)"

text \<open>
  One LCB of \<open>swapBackbones\<close>: relabel, then \<open>lcb.sort((a, b) => a.lcb_idx - b.lcb_idx)\<close>.
  \<open>Array.prototype.sort\<close> is a stable sort (ECMAScript 2019), as \<open>sort_key\<close> is.
\<close>

definition swapBackbonesLcb :: "int \<Rightarrow> int \<Rightarrow> region list \<Rightarrow> region list" where
  "swapBackbonesLcb oldID newID lcb = sort_key lcb_idx (map (relabel oldID newID) lcb)"

definition swapBackbones :: "int \<Rightarrow> int \<Rightarrow> viewer \<Rightarrow> viewer" where
  "swapBackbones oldID newID v = v\<lparr>data := map (swapBackbonesLcb oldID newID) (data v)\<rparr>"

text \<open>What \<open>moveTrackUp\<close> and \<open>moveTrackDown\<close> do once the range check has passed.\<close>

definition swapTracks :: "int \<Rightarrow> int \<Rightarrow> viewer \<Rightarrow> viewer" where
  "swapTracks i swapID v = swapBackbones i swapID (swapTrack i swapID v)"

definition moveTrackUp :: "int \<Rightarrow> viewer \<Rightarrow> viewer" where
  "moveTrackUp i v = (let swapID = i - 1 in if swapID < 1 then v else swapTracks i swapID v)"

definition moveTrackDown :: "int \<Rightarrow> viewer \<Rightarrow> viewer" where
  "moveTrackDown i v =
     (let swapID = i + 1 in if swapID > int (trackCount v) then v else swapTracks i swapID v)"

subsection \<open>Hiding and showing tracks\<close>

fun setHidden :: "int \<Rightarrow> bool \<Rightarrow> region list \<Rightarrow> region list" where
  "setHidden i h [] = []"
| "setHidden i h (r # rs) = (if lcb_idx r = i then r\<lparr>hidden := h\<rparr> else r) # setHidden i h rs"

definition hideTrack :: "int \<Rightarrow> viewer \<Rightarrow> viewer" where
  "hideTrack i v =
     v\<lparr>data := map (setHidden i True) (data v), hiddenTracks := hiddenTracks v @ [i]\<rparr>"

text \<open>\<open>Array.prototype.indexOf\<close>: the first index of the element, or \<open>-1\<close>.\<close>

fun indexOf :: "int list \<Rightarrow> int \<Rightarrow> int" where
  "indexOf [] x = -1"
| "indexOf (y # ys) x = (if y = x then 0 else (let k = indexOf ys x in if k < 0 then -1 else k + 1))"

text \<open>
  \<open>Array.prototype.splice(start)\<close> with one argument removes everything from \<open>start\<close>
  to the end; a negative \<open>start\<close> counts from the end of the array.
\<close>

definition splice :: "int list \<Rightarrow> int \<Rightarrow> int list" where
  "splice xs start' =
     (let len = int (length xs);
          from = (if start' < 0 then max (len + start') 0 else min start' len)
      in take (nat from) xs)"

definition showTrack :: "int \<Rightarrow> viewer \<Rightarrow> viewer" where
  "showTrack i v =
     v\<lparr>data := map (setHidden i False) (data v),
       hiddenTracks := splice (hiddenTracks v) (indexOf (hiddenTracks v) i)\<rparr>"

text \<open>\<open>render\<close> draws track \<open>i\<close> as hidden when \<open>hiddenTracks.includes(i)\<close>.\<close>

definition isHidden :: "viewer \<Rightarrow> int \<Rightarrow> bool" where
  "isHidden v i = (i \<in> set (hiddenTracks v))"

section \<open>The cursor of cursor.js\<close>

text \<open>
  A track's scale is the d3 scale that \<open>getZoomScale\<close> returns: a function from
  sequence positions to surface positions with its \<open>invert\<close>. The class \<open>Track\<close> and
  d3 are not part of the sources, so a scale is a pair of functions given from outside;
  positions on the surface are real numbers. \<open>Math.round\<close> rounds halves up, as
  \<open>round\<close> does (\<open>round x = \<lfloor>x + 1/2\<rfloor>\<close>).
\<close>

record scale =
  scale_fn :: "real \<Rightarrow> real"
  invert :: "real \<Rightarrow> real"

text \<open>
  The shapes the handlers look at. Of an element the handlers read the tag name, the
  class list and the datum bound by d3. The classes that matter are \<open>region\<close>,
  \<open>cursor-line\<close>, \<open>hover-box\<close> and \<open>group-N\<close> for the group id \<open>N\<close>.
\<close>

datatype cssClass = RegionClass | CursorLineClass | HoverBoxClass | GroupClass nat | OtherClass string

record element =
  tagName :: string
  classList :: "cssClass list"
  datum :: "region option"

text \<open>
  The cursor line and the hover box that \<open>render\<close> draws for each track. An attribute
  that was never set is \<open>None\<close>; \<open>render\<close> sets \<open>x1\<close> of a line but not \<open>x2\<close>.
\<close>

record cursorLine =
  x1 :: real
  x2 :: "real option"
  line_opacity :: "real option"

record hoverBox =
  box_x :: real
  box_opacity :: "real option"

text \<open>
  The state of a \<open>Cursor\<close>. \<open>tracks\<close> is \<open>params.tracks\<close>, each track given by its
  zoom scale; it is \<open>None\<close> when the constructor receives no \<open>tracks\<close>. \<open>relativeXs\<close>
  and \<open>scales\<close> are the objects keyed by track index minus one. \<open>lcbLength\<close> and
  \<open>ntPos\<close> are the numbers shown in the nodes \<open>.lcb-length\<close> and \<open>.nt-pos\<close>.
\<close>

record cursor =
  tracks :: "scale list option"
  hoverXPos :: "real option"
  hoverTrackID :: "int option"
  hoverLCBID :: "nat option"
  scales :: "int \<rightharpoonup> scale"
  relativeXs :: "int \<rightharpoonup> real"
  hoverLines :: "cursorLine list"
  hoverBoxes :: "hoverBox list"
  lcbLength :: "int option"
  ntPos :: "int option"

datatype error = TypeError

text \<open>
  A handler that throws leaves the cursor as it was at the throw: \<open>Inl (e, c)\<close>.
\<close>

type_synonym outcome = "(error \<times> cursor) + cursor"

text \<open>The cursor after the constructor and \<open>render\<close>, for \<open>trackCount\<close> tracks.\<close>

definition newCursor :: "scale list option \<Rightarrow> nat \<Rightarrow> cursor" where
  "newCursor ts n =
     \<lparr>tracks = ts, hoverXPos = None, hoverTrackID = None, hoverLCBID = None,
      scales = Map.empty, relativeXs = Map.empty,
      hoverLines = replicate n \<lparr>x1 = -11, x2 = None, line_opacity = None\<rparr>,
      hoverBoxes = replicate n \<lparr>box_x = -11, box_opacity = None\<rparr>,
      lcbLength = None, ntPos = None\<rparr>"

text \<open>
  \<open>self.tracks[k].getZoomScale()\<close>: a \<open>TypeError\<close> (here \<open>None\<close>) when \<open>tracks\<close> is
  undefined or has no element \<open>k\<close>.
\<close>

definition getZoomScale :: "scale list option \<Rightarrow> int \<Rightarrow> scale option" where
  "getZoomScale ts k =
     (case ts of
        None \<Rightarrow> None
      | Some xs \<Rightarrow> if 0 \<le> k \<and> k < int (length xs) then Some (xs ! nat k) else None)"

text \<open>
  \<open>lines[k].attr('x1', p).attr('x2', p)\<close>: a \<open>TypeError\<close> (here \<open>None\<close>) when there is
  no line \<open>k\<close>.
\<close>

definition moveLine :: "cursorLine list \<Rightarrow> int \<Rightarrow> real \<Rightarrow> cursorLine list option" where
  "moveLine ls k p =
     (if 0 \<le> k \<and> k < int (length ls)
      then Some (ls[nat k := (ls ! nat k)\<lparr>x1 := p, x2 := Some p\<rparr>])
      else None)"

text \<open>
  \<open>svg.select('.hover-box-i').attr('x', p)\<close>: box \<open>i\<close> is the element \<open>i - 1\<close> of the
  boxes; a selection that finds nothing changes nothing.
\<close>

definition moveBox :: "hoverBox list \<Rightarrow> int \<Rightarrow> real \<Rightarrow> hoverBox list" where
  "moveBox bs i p =
     (if 1 \<le> i \<and> i \<le> int (length bs)
      then bs[nat (i - 1) := (bs ! nat (i - 1))\<lparr>box_x := p\<rparr>]
      else bs)"

text \<open>\<open>svg.selectAll('.group-N')\<close> over the shapes of the drawing, in document order.\<close>

definition selectGroup :: "element list \<Rightarrow> nat \<Rightarrow> element list" where
  "selectGroup shapes g = filter (\<lambda>e. GroupClass g \<in> set (classList e)) shapes"

text \<open>
  The position on the track of region \<open>d\<close> that corresponds to the offset \<open>relXPos\<close>
  on the hovered region, \<open>x\<close> being the scale of \<open>d\<close>'s track.
\<close>

definition nextXPos :: "string \<Rightarrow> real \<Rightarrow> scale \<Rightarrow> region \<Rightarrow> real" where
  "nextXPos hoverStrand relXPos x d =
     (if hoverStrand \<noteq> strand d then scale_fn x (real_of_int (end_pos d)) - relXPos
      else scale_fn x (real_of_int (start d)) + relXPos)"

text \<open>
  The callback of \<open>each\<close> that draws the cursor lines of the other regions of the
  group, run over the selection: \<open>trackID\<close>, \<open>hoverStrand\<close>, \<open>xPos\<close> and \<open>relXPos\<close>
  are the variables of the enclosing handler.
\<close>

fun mapGroup :: "int \<Rightarrow> string \<Rightarrow> real \<Rightarrow> real \<Rightarrow> element list \<Rightarrow> cursor \<Rightarrow> outcome" where
  "mapGroup trackID hoverStrand xPos relXPos [] c = Inr c"
| "mapGroup trackID hoverStrand xPos relXPos (e # es) c =
     (case datum e of
        None \<Rightarrow> Inl (TypeError, c)
      | Some d \<Rightarrow>
          if lcb_idx d = trackID then mapGroup trackID hoverStrand xPos relXPos es c
          else
            (case getZoomScale (tracks c) (lcb_idx d - 1) of
               None \<Rightarrow> Inl (TypeError, c)
             | Some x \<Rightarrow>
                 (let nxt = nextXPos hoverStrand relXPos x d;
                      diff = xPos - nxt + 1;
                      c1 = c\<lparr>relativeXs := (relativeXs c)(lcb_idx d - 1 \<mapsto> diff),
                             scales := (scales c)(lcb_idx d - 1 \<mapsto> x)\<rparr>
                  in case moveLine (hoverLines c1) (lcb_idx d - 1) nxt of
                       None \<Rightarrow> Inl (TypeError, c1)
                     | Some ls \<Rightarrow>
                         mapGroup trackID hoverStrand xPos relXPos es
                           (c1\<lparr>hoverLines := ls,
                               hoverBoxes := moveBox (hoverBoxes c1) (lcb_idx d) (nxt - 5)\<rparr>))))"

text \<open>
  The \<open>mousemove\<close> handler over a region with datum \<open>d\<close>, the pointer at \<open>mouseX\<close>
  (\<open>d3.mouse(this)[0]\<close>). The strokes that highlight the group are drawing only and
  are left out.
\<close>

definition hoverRegion :: "element list \<Rightarrow> region \<Rightarrow> real \<Rightarrow> cursor \<Rightarrow> outcome" where
  "hoverRegion shapes d mouseX c =
     (let trackID = lcb_idx d;
          c1 = c\<lparr>hoverTrackID := Some trackID\<rparr>;
          hoverStrand = strand d
      in case getZoomScale (tracks c1) (trackID - 1) of
           None \<Rightarrow> Inl (TypeError, c1)
         | Some x \<Rightarrow>
             (let xPos = scale_fn x (real_of_int (round (invert x mouseX)));
                  c2 = c1\<lparr>hoverXPos := Some xPos,
                         relativeXs := (relativeXs c1)(trackID - 1 \<mapsto> 0),
                         scales := (scales c1)(trackID - 1 \<mapsto> x)\<rparr>;
                  relXPos = xPos - scale_fn x (real_of_int (start d))
              in case moveLine (hoverLines c2) (trackID - 1) xPos of
                   None \<Rightarrow> Inl (TypeError, c2)
                 | Some ls \<Rightarrow>
                     (let c3 = c2\<lparr>hoverLines := ls,
                                 hoverBoxes := moveBox (hoverBoxes c2) trackID (xPos - 5)\<rparr>;
                          c4 = c3\<lparr>hoverLCBID := Some (groupID d)\<rparr>
                      in case mapGroup trackID hoverStrand xPos relXPos
                                (selectGroup shapes (groupID d)) c4 of
                           Inl t \<Rightarrow> Inl t
                         | Inr c5 \<Rightarrow>
                             Inr (c5\<lparr>lcbLength := Some (end_pos d - start d + 1),
                                     ntPos := Some (round (invert x xPos))\<rparr>))))"

text \<open>\<open>opacity\<close> 0 on every hover box and every cursor line.\<close>

definition hideCursors :: "cursor \<Rightarrow> cursor" where
  "hideCursors c =
     c\<lparr>hoverBoxes := map (\<lambda>b. b\<lparr>box_opacity := Some 0\<rparr>) (hoverBoxes c),
       hoverLines := map (\<lambda>l. l\<lparr>line_opacity := Some 0\<rparr>) (hoverLines c)\<rparr>"

text \<open>
  The \<open>mousemove\<close> handler: \<open>ele\<close> is \<open>document.elementFromPoint\<close> at the pointer
  (\<open>None\<close> for \<open>null\<close>), \<open>shapes\<close> the shapes of the drawing.
\<close>

definition mousemove :: "element list \<Rightarrow> element option \<Rightarrow> real \<Rightarrow> cursor \<Rightarrow> outcome" where
  "mousemove shapes ele mouseX c =
     (case ele of
        None \<Rightarrow> Inr c
      | Some e \<Rightarrow>
          if tagName e \<noteq> ''rect'' \<or> RegionClass \<notin> set (classList e) then
            (if CursorLineClass \<in> set (classList e) \<or> HoverBoxClass \<in> set (classList e)
             then Inr c
             else Inr (hideCursors c))
          else
            (case datum e of
               None \<Rightarrow> Inl (TypeError, c)
             | Some d \<Rightarrow> hoverRegion shapes d mouseX c))"

text \<open>The \<open>mouseover\<close> handler.\<close>

definition mouseover :: "cursor \<Rightarrow> cursor" where
  "mouseover c =
     c\<lparr>hoverLines := map (\<lambda>l. l\<lparr>line_opacity := Some 1\<rparr>) (hoverLines c),
       hoverBoxes := map (\<lambda>b. b\<lparr>box_opacity := Some 1\<rparr>) (hoverBoxes c)\<rparr>"

text \<open>
  The \<open>mouseout\<close> handler; \<open>related\<close> is \<open>d3.event.relatedTarget\<close>. The empty strings
  written to the two nodes are \<open>None\<close>.
\<close>

definition mouseout :: "element option \<Rightarrow> cursor \<Rightarrow> cursor" where
  "mouseout related c =
     (if (case related of None \<Rightarrow> False | Some e \<Rightarrow> CursorLineClass \<in> set (classList e))
      then c
      else c\<lparr>hoverLines :=
                map (\<lambda>l. l\<lparr>line_opacity := Some 0, x1 := -2, x2 := Some (-2)\<rparr>) (hoverLines c),
              hoverBoxes := map (\<lambda>b. b\<lparr>box_opacity := Some 0, box_x := -11\<rparr>) (hoverBoxes c),
              lcbLength := None, ntPos := None\<rparr>)"

text \<open>What the \<open>click\<close> callback passes to \<open>onclick\<close> (the DOM event apart).\<close>

record clickInfo =
  trackID :: "int option"
  lcbID :: "nat option"
  xPos :: "real option"
  click_relativeXs :: "int \<rightharpoonup> real"
  click_scales :: "int \<rightharpoonup> scale"

definition click :: "cursor \<Rightarrow> clickInfo" where
  "click c =
     \<lparr>trackID = hoverTrackID c, lcbID = hoverLCBID c, xPos = hoverXPos c,
      click_relativeXs = relativeXs c, click_scales = scales c\<rparr>"

section \<open>Well-formed alignment groups\<close>

text \<open>
  The invariants of the data model that the code relies on and never checks: a strand
  is \<open>'+'\<close> or \<open>'-'\<close>, and a group has at most one region on a track.
\<close>

definition wellFormedLcb :: "region list \<Rightarrow> bool" where
  "wellFormedLcb lcb =
     ((\<forall>r\<in>set lcb. strand r = ''+'' \<or> strand r = ''-'') \<and> distinct (map lcb_idx lcb))"

definition hasTrack :: "int \<Rightarrow> region list \<Rightarrow> bool" where
  "hasTrack t lcb = (\<exists>r\<in>set lcb. lcb_idx r = t)"

text \<open>
  What identifies a region and its group: the id and the group id that
  \<open>getGenomeRegions\<close> gave it. \<open>groupMembers\<close> lists, group by group in the order of
  \<open>data\<close>, which regions the group holds.
\<close>

definition membership :: "region \<Rightarrow> nat \<times> nat" where
  "membership r = (region_id r, groupID r)"

definition groupMembers :: "viewer \<Rightarrow> (nat \<times> nat) multiset list" where
  "groupMembers v = map (\<lambda>lcb. mset (map membership lcb)) (data v)"

text \<open>A region with its track index blanked: everything a track swap must keep.\<close>

definition untracked :: "region \<Rightarrow> region" where
  "untracked r = r\<lparr>lcb_idx := 0\<rparr>"

section \<open>Example inputs\<close>

definition mkRegion :: "int \<Rightarrow> int \<Rightarrow> string \<Rightarrow> int \<Rightarrow> region" where
  "mkRegion s e st t =
     \<lparr>start = s, end_pos = e, strand = st, lcb_idx = t, name = ''genome'',
      region_id = 0, groupID = 0, hidden = False\<rparr>"

text \<open>Two groups: the first has tracks 1 and 2, the second only track 2.\<close>

definition exampleInput :: "region list list" where
  "exampleInput =
     [[mkRegion 100 200 ''+'' 1, mkRegion 500 650 ''-'' 2],
      [mkRegion 300 400 ''-'' 2]]"

text \<open>One group that lists track 2 before track 1.\<close>

definition exampleUnsorted :: "region list list" where
  "exampleUnsorted = [[mkRegion 500 650 ''-'' 2, mkRegion 100 200 ''+'' 1]]"

text \<open>
  A drawing of the example: every region is a \<open>rect\<close> of class \<open>region\<close> and of the
  class of its group, every track has the same linear scale (ten sequence positions to
  one unit of the surface), and the cursor is the one \<open>render\<close> would make for the two
  tracks when it is given their scales.
\<close>

definition exampleScale :: scale where
  "exampleScale = \<lparr>scale_fn = (\<lambda>p. p / 10), invert = (\<lambda>q. q * 10)\<rparr>"

definition shapeOf :: "region \<Rightarrow> element" where
  "shapeOf r = \<lparr>tagName = ''rect'', classList = [RegionClass, GroupClass (groupID r)], datum = Some r\<rparr>"

definition exampleShapes :: "element list" where
  "exampleShapes = map shapeOf (concat (data (init exampleInput)))"

definition exampleCursor :: cursor where
  "exampleCursor = newCursor (Some [exampleScale, exampleScale]) 2"

definition exampleBackground :: element where
  "exampleBackground = \<lparr>tagName = ''svg'', classList = [], datum = None\<rparr>"

text \<open>The first region of the example, on track 1, and the second, on track 2.\<close>

definition exampleRegionA :: region where
  "exampleRegionA = (mkRegion 100 200 ''+'' 1)\<lparr>region_id := 1, groupID := 0\<rparr>"

definition exampleRegionB :: region where
  "exampleRegionB = (mkRegion 500 650 ''-'' 2)\<lparr>region_id := 2, groupID := 0\<rparr>"

text \<open>
  The cursor after the pointer has moved over the first region at surface position
  15.02, that is near sequence position 150.
\<close>

definition exampleHovered :: cursor where
  "exampleHovered =
     (case mousemove exampleShapes (Some (shapeOf exampleRegionA)) (1502 / 100) exampleCursor of
        Inr c \<Rightarrow> c
      | Inl (t, c) \<Rightarrow> c)"

text \<open>
  A second drawing: one group whose two regions have the same span and the same
  strand, and the cursor after the pointer has moved over the first of them at surface
  position 15.
\<close>

definition exampleRegionC :: region where
  "exampleRegionC = (mkRegion 100 200 ''+'' 2)\<lparr>region_id := 2, groupID := 0\<rparr>"

definition exampleAligned :: "element list" where
  "exampleAligned = [shapeOf exampleRegionA, shapeOf exampleRegionC]"

definition exampleCoincident :: cursor where
  "exampleCoincident =
     (case mousemove exampleAligned (Some (shapeOf exampleRegionA)) 15 exampleCursor of
        Inr c \<Rightarrow> c
      | Inl (t, c) \<Rightarrow> c)"

section \<open>Properties of setReference\<close>

lemma markReference_fst:
  "fst (markReference i f rs) =
     map (\<lambda>r. if lcb_idx r = i \<and> strand r \<noteq> ''+'' then r\<lparr>strand := ''+''\<rparr> else r) rs"
  by (induction rs arbitrary: f) (simp_all add: split_beta)

lemma markReference_snd:
  "snd (markReference i f rs) = (f \<or> (\<exists>r\<in>set rs. lcb_idx r = i \<and> strand r \<noteq> ''+''))"
  by (induction rs arbitrary: f) (simp_all add: split_beta)

lemma flipOthers_map:
  "flipOthers i rs =
     map (\<lambda>r. if lcb_idx r = i then r
               else r\<lparr>strand := (if strand r = ''-'' then ''+'' else ''-'')\<rparr>) rs"
  by (induction rs) auto

lemma setReferenceLcb_eq:
  "setReferenceLcb i lcb =
     (if \<exists>r\<in>set lcb. lcb_idx r = i \<and> strand r \<noteq> ''+''
      then map (\<lambda>r. if lcb_idx r = i then r\<lparr>strand := ''+''\<rparr>
                     else r\<lparr>strand := (if strand r = ''-'' then ''+'' else ''-'')\<rparr>) lcb
      else lcb)"
proof -
  let ?need = "\<exists>r\<in>set lcb. lcb_idx r = i \<and> strand r \<noteq> ''+''"
  let ?mark = "\<lambda>r. if lcb_idx r = i \<and> strand r \<noteq> ''+'' then r\<lparr>strand := ''+''\<rparr> else r"
  obtain lcb' f where mr: "markReference i False lcb = (lcb', f)"
    by (cases "markReference i False lcb")
  have l: "lcb' = map ?mark lcb"
    using markReference_fst [of i False lcb] mr by simp
  have f: "f = ?need"
    using markReference_snd [of i False lcb] mr by simp
  show ?thesis
  proof (cases ?need)
    case True
    have "setReferenceLcb i lcb = flipOthers i (map ?mark lcb)"
      using True f by (simp add: setReferenceLcb_def mr l)
    also have "\<dots> = map (\<lambda>r. if lcb_idx r = i then r\<lparr>strand := ''+''\<rparr>
                     else r\<lparr>strand := (if strand r = ''-'' then ''+'' else ''-'')\<rparr>) lcb"
      unfolding flipOthers_map map_map by (rule map_cong) auto
    finally show ?thesis using True by simp
  next
    case False
    then have "map ?mark lcb = lcb" by (intro map_idI) auto
    then have "setReferenceLcb i lcb = lcb"
      using False f by (simp add: setReferenceLcb_def mr l)
    then show ?thesis using False by (simp only: if_False)
  qed
qed

lemma setReferenceLcb_unchanged:
  "\<not> (\<exists>r\<in>set lcb. lcb_idx r = i \<and> strand r \<noteq> ''+'') \<Longrightarrow> setReferenceLcb i lcb = lcb"
  by (simp only: setReferenceLcb_eq if_False)

lemma setReferenceLcb_flipped:
  "\<exists>r\<in>set lcb. lcb_idx r = i \<and> strand r \<noteq> ''+'' \<Longrightarrow>
   setReferenceLcb i lcb =
     map (\<lambda>r. if lcb_idx r = i then r\<lparr>strand := ''+''\<rparr>
               else r\<lparr>strand := (if strand r = ''-'' then ''+'' else ''-'')\<rparr>) lcb"
  by (simp only: setReferenceLcb_eq if_True)

lemma setReferenceLcb_settled:
  assumes "r \<in> set (setReferenceLcb i lcb)" and "lcb_idx r = i"
  shows "strand r = ''+''"
proof (cases "\<exists>r\<in>set lcb. lcb_idx r = i \<and> strand r \<noteq> ''+''")
  case True
  from assms(1) obtain r0 where "r0 \<in> set lcb"
    and r: "r = (if lcb_idx r0 = i then r0\<lparr>strand := ''+''\<rparr>
                 else r0\<lparr>strand := (if strand r0 = ''-'' then ''+'' else ''-'')\<rparr>)"
    unfolding setReferenceLcb_flipped [OF True] by auto
  show ?thesis
  proof (cases "lcb_idx r0 = i")
    case True
    with r show ?thesis by simp
  next
    case False
    with r assms(2) show ?thesis by simp
  qed
next
  case False
  from assms(1) have "r \<in> set lcb" by (simp only: setReferenceLcb_unchanged [OF False])
  with False assms(2) show ?thesis by blast
qed

lemma setReferenceLcb_idem: "setReferenceLcb i (setReferenceLcb i lcb) = setReferenceLcb i lcb"
proof -
  have "\<not> (\<exists>r\<in>set (setReferenceLcb i lcb). lcb_idx r = i \<and> strand r \<noteq> ''+'')"
    using setReferenceLcb_settled by blast
  then show ?thesis by (rule setReferenceLcb_unchanged)
qed

lemma map_lcb_idx_setReferenceLcb: "map lcb_idx (setReferenceLcb i lcb) = map lcb_idx lcb"
proof (cases "\<exists>r\<in>set lcb. lcb_idx r = i \<and> strand r \<noteq> ''+''")
  case True
  show ?thesis unfolding setReferenceLcb_flipped [OF True] map_map
    by (rule map_cong) simp_all
next
  case False
  show ?thesis by (simp only: setReferenceLcb_unchanged [OF False])
qed

lemma strands_setReferenceLcb:
  assumes "\<forall>r\<in>set lcb. strand r = ''+'' \<or> strand r = ''-''"
    and "r \<in> set (setReferenceLcb i lcb)"
  shows "strand r = ''+'' \<or> strand r = ''-''"
proof (cases "\<exists>r\<in>set lcb. lcb_idx r = i \<and> strand r \<noteq> ''+''")
  case True
  from assms(2) obtain r0 where "r0 \<in> set lcb"
    and r: "r = (if lcb_idx r0 = i then r0\<lparr>strand := ''+''\<rparr>
                 else r0\<lparr>strand := (if strand r0 = ''-'' then ''+'' else ''-'')\<rparr>)"
    unfolding setReferenceLcb_flipped [OF True] by auto
  show ?thesis by (cases "lcb_idx r0 = i"; cases "strand r0 = ''-''") (simp_all add: r)
next
  case False
  from assms(2) have "r \<in> set lcb" by (simp only: setReferenceLcb_unchanged [OF False])
  with assms(1) show ?thesis by blast
qed

lemma wellFormedLcb_setReferenceLcb:
  "wellFormedLcb lcb \<Longrightarrow> wellFormedLcb (setReferenceLcb i lcb)"
  unfolding wellFormedLcb_def
  using strands_setReferenceLcb [of lcb _ i] by (simp only: map_lcb_idx_setReferenceLcb) blast

lemma hasTrack_setReferenceLcb: "hasTrack t (setReferenceLcb i lcb) = hasTrack t lcb"
proof -
  have "hasTrack t xs = (t \<in> set (map lcb_idx xs))" for xs
    by (auto simp: hasTrack_def)
  then show ?thesis by (simp only: map_lcb_idx_setReferenceLcb)
qed

text \<open>
  C2. \<open>setReference i\<close> works group by group. In a group that has a region of track
  \<open>i\<close> whose strand is not \<open>'+'\<close>, the regions of track \<open>i\<close> get the strand \<open>'+'\<close> and
  every other region has its strand toggled (\<open>'-'\<close> becomes \<open>'+'\<close>, anything else
  \<open>'-'\<close>). Every other group, one whose regions of track \<open>i\<close> are all \<open>'+'\<close> or one with
  no region of track \<open>i\<close>, is left as it is.
\<close>

theorem setReference_per_group:
  "data (setReference i v) =
     map (\<lambda>lcb.
            if \<exists>r\<in>set lcb. lcb_idx r = i \<and> strand r \<noteq> ''+''
            then map (\<lambda>r. if lcb_idx r = i then r\<lparr>strand := ''+''\<rparr>
                           else r\<lparr>strand := (if strand r = ''-'' then ''+'' else ''-'')\<rparr>) lcb
            else lcb) (data v)"
proof -
  have "data (setReference i v) = map (setReferenceLcb i) (data v)"
    by (simp add: setReference_def)
  also have "\<dots> = map (\<lambda>lcb.
            if \<exists>r\<in>set lcb. lcb_idx r = i \<and> strand r \<noteq> ''+''
            then map (\<lambda>r. if lcb_idx r = i then r\<lparr>strand := ''+''\<rparr>
                           else r\<lparr>strand := (if strand r = ''-'' then ''+'' else ''-'')\<rparr>) lcb
            else lcb) (data v)"
    by (rule map_cong [OF refl]) (rule setReferenceLcb_eq)
  finally show ?thesis .
qed

text \<open>
  C3. Calling \<open>setReference\<close> twice with the same track index gives the same viewer,
  and so the same strand on every region, as calling it once.
\<close>

theorem setReference_idempotent: "setReference i (setReference i v) = setReference i v"
  by (simp add: setReference_def setReferenceLcb_idem)

text \<open>
  A group whose regions of track \<open>t\<close> are all \<open>'+'\<close> comes back unchanged from
  \<open>setReference t2\<close> followed by \<open>setReference t\<close>, when it is well formed and has a
  region of track \<open>t\<close> if it has one of track \<open>t2\<close>.
\<close>

lemma restore_settled:
  assumes wf: "wellFormedLcb s"
    and settled: "\<forall>r\<in>set s. lcb_idx r = t \<longrightarrow> strand r = ''+''"
    and pres: "hasTrack t2 s \<longrightarrow> hasTrack t s"
  shows "setReferenceLcb t (setReferenceLcb t2 s) = s"
proof (cases "\<exists>r\<in>set s. lcb_idx r = t2 \<and> strand r \<noteq> ''+''")
  case False
  have nt: "\<not> (\<exists>r\<in>set s. lcb_idx r = t \<and> strand r \<noteq> ''+'')" using settled by blast
  show ?thesis
    by (simp only: setReferenceLcb_unchanged [OF False] setReferenceLcb_unchanged [OF nt])
next
  case True
  then obtain r2 where r2: "r2 \<in> set s" "lcb_idx r2 = t2" "strand r2 \<noteq> ''+''" by blast
  have ne: "t \<noteq> t2" using r2 settled by blast
  have valid: "\<And>r. r \<in> set s \<Longrightarrow> strand r = ''+'' \<or> strand r = ''-''"
    using wf by (simp add: wellFormedLcb_def)
  have inj: "inj_on lcb_idx (set s)"
    using wf by (simp add: wellFormedLcb_def distinct_map)
  have "hasTrack t s" using pres r2 by (auto simp: hasTrack_def)
  then obtain rt where rt: "rt \<in> set s" "lcb_idx rt = t" by (auto simp: hasTrack_def)
  let ?F2 = "\<lambda>r. if lcb_idx r = t2 then r\<lparr>strand := ''+''\<rparr>
               else r\<lparr>strand := (if strand r = ''-'' then ''+'' else ''-'')\<rparr>"
  let ?F = "\<lambda>r. if lcb_idx r = t then r\<lparr>strand := ''+''\<rparr>
               else r\<lparr>strand := (if strand r = ''-'' then ''+'' else ''-'')\<rparr>"
  have T: "setReferenceLcb t2 s = map ?F2 s" by (rule setReferenceLcb_flipped [OF True])
  have "strand rt = ''+''" using rt settled by blast
  then have "lcb_idx (?F2 rt) = t \<and> strand (?F2 rt) \<noteq> ''+''"
    using rt ne by simp
  moreover have "?F2 rt \<in> set (map ?F2 s)" unfolding set_map using rt(1) by (rule imageI)
  ultimately have need: "\<exists>r\<in>set (map ?F2 s). lcb_idx r = t \<and> strand r \<noteq> ''+''" by blast
  have "setReferenceLcb t (map ?F2 s) = map ?F (map ?F2 s)"
    by (rule setReferenceLcb_flipped [OF need])
  also have "\<dots> = s"
  proof -
    have "?F (?F2 r) = r" if r: "r \<in> set s" for r
    proof (cases "lcb_idx r = t2")
      case True
      then have "r = r2" using inj r r2 by (auto dest: inj_onD)
      then have "strand r = ''-''" using r2 valid by blast
      then show ?thesis using True ne by simp
    next
      case False
      show ?thesis
      proof (cases "lcb_idx r = t")
        case True
        then have "strand r = ''+''" using settled r by blast
        then show ?thesis using True False by simp
      next
        case nt: False
        from valid [OF r] show ?thesis using nt False by auto
      qed
    qed
    then show ?thesis unfolding map_map by (intro map_idI) simp
  qed
  finally show ?thesis unfolding T .
qed

lemma setReferenceLcb_restore:
  assumes "wellFormedLcb lcb" and "hasTrack t2 lcb \<longrightarrow> hasTrack t lcb"
  shows "setReferenceLcb t (setReferenceLcb t2 (setReferenceLcb t lcb)) = setReferenceLcb t lcb"
proof (rule restore_settled)
  show "wellFormedLcb (setReferenceLcb t lcb)"
    using assms(1) by (rule wellFormedLcb_setReferenceLcb)
  show "\<forall>r\<in>set (setReferenceLcb t lcb). lcb_idx r = t \<longrightarrow> strand r = ''+''"
    using setReferenceLcb_settled by blast
  show "hasTrack t2 (setReferenceLcb t lcb) \<longrightarrow> hasTrack t (setReferenceLcb t lcb)"
    using assms(2) by (simp only: hasTrack_setReferenceLcb)
qed

lemmas example_defs =
  init_def getGenomeRegions_def exampleInput_def mkRegion_def setReference_def
  setReferenceLcb_def

text \<open>
  C4, as the claim states it, fails: the second group of the example has a region of
  track 2 with strand \<open>'-'\<close> and no region of track 1. \<open>setReference 1\<close> leaves it
  alone, \<open>setReference 2\<close> turns it to \<open>'+'\<close>, and the second \<open>setReference 1\<close> leaves
  it alone again, so the three calls do not end where the one call does.
\<close>

theorem setReference_restore_counterexample:
  "map (map strand)
     (data (setReference 1 (setReference 2 (setReference 1 (init exampleInput)))))
     = [[''+'', ''-''], [''+'']]
   \<and> map (map strand) (data (setReference 1 (init exampleInput)))
     = [[''+'', ''-''], [''-'']]"
  by (simp add: example_defs)

text \<open>
  C4, amended. When every group is well formed (strands \<open>'+'\<close> or \<open>'-'\<close>, at most one
  region on a track) and every group with a region of track \<open>t2\<close> also has one of
  track \<open>t\<close>, then \<open>setReference t\<close>, \<open>setReference t2\<close>, \<open>setReference t\<close> in a row
  give the same viewer as \<open>setReference t\<close> alone.
\<close>

theorem setReference_restore:
  assumes "\<forall>lcb\<in>set (data v). wellFormedLcb lcb \<and> (hasTrack t2 lcb \<longrightarrow> hasTrack t lcb)"
  shows "setReference t (setReference t2 (setReference t v)) = setReference t v"
proof -
  have "map (setReferenceLcb t) (map (setReferenceLcb t2) (map (setReferenceLcb t) (data v)))
        = map (setReferenceLcb t) (data v)"
    unfolding map_map using assms by (intro map_cong [OF refl]) (simp add: setReferenceLcb_restore)
  then show ?thesis by (simp add: setReference_def)
qed

theorem setReference_restore_witness:
  "list_all (\<lambda>lcb. wellFormedLcb lcb \<and> (hasTrack 1 lcb \<longrightarrow> hasTrack 2 lcb))
     (data (init exampleInput))
   \<and> setReference 2 (setReference 1 (setReference 2 (init exampleInput)))
     = setReference 2 (init exampleInput)
   \<and> map (map strand) (data (setReference 2 (init exampleInput)))
     = [[''-'', ''+''], [''+'']]"
proof -
  have h: "\<forall>lcb\<in>set (data (init exampleInput)).
             wellFormedLcb lcb \<and> (hasTrack 1 lcb \<longrightarrow> hasTrack 2 lcb)"
    by (simp add: example_defs wellFormedLcb_def hasTrack_def)
  have s: "map (map strand) (data (setReference 2 (init exampleInput)))
     = [[''-'', ''+''], [''+'']]"
    by (simp add: example_defs)
  from setReference_restore [OF h] h s show ?thesis
    by (simp only: list_all_iff simp_thms)
qed

section \<open>Properties of the track swap\<close>

lemma relabel_relabel: "relabel a b (relabel a b r) = r"
  by (simp add: relabel_def)

lemma lcb_idx_relabel:
  "lcb_idx (relabel a b r) = (if lcb_idx r = a then b else if lcb_idx r = b then a else lcb_idx r)"
  by (simp add: relabel_def)

lemma lcb_idx_relabel_eq:
  "(lcb_idx (relabel a b x) = lcb_idx (relabel a b y)) = (lcb_idx x = lcb_idx y)"
  by (auto simp: lcb_idx_relabel)

text \<open>
  Swapping twice brings every region back to its track, and the two stable sorts leave
  the group stably sorted by track index.
\<close>

lemma swapBackbonesLcb_twice:
  "swapBackbonesLcb a b (swapBackbonesLcb a b lcb) = sort_key lcb_idx lcb"
  unfolding swapBackbonesLcb_def
proof (rule properties_for_sort_key)
  let ?xs = "map (relabel a b) (sort_key lcb_idx (map (relabel a b) lcb))"
  show "mset (sort_key lcb_idx lcb) = mset ?xs"
    by (simp add: mset_map [symmetric] del: mset_map)
       (simp add: multiset.map_comp comp_def relabel_relabel)
  show "sorted (map lcb_idx (sort_key lcb_idx lcb))" by simp
  fix k assume "k \<in> set (sort_key lcb_idx lcb)"
  have "filter (\<lambda>x. lcb_idx k = lcb_idx x) ?xs
        = map (relabel a b) (filter (\<lambda>x. lcb_idx x = lcb_idx (relabel a b k))
             (sort_key lcb_idx (map (relabel a b) lcb)))"
    unfolding filter_map comp_def
    by (rule arg_cong [where f = "map (relabel a b)"], rule filter_cong [OF refl])
       (metis lcb_idx_relabel_eq relabel_relabel)
  also have "\<dots> = map (relabel a b) (filter (\<lambda>x. lcb_idx x = lcb_idx (relabel a b k))
             (map (relabel a b) lcb))"
    by (simp only: sort_key_stable)
  also have "\<dots> = filter (\<lambda>x. lcb_idx k = lcb_idx x) lcb"
    unfolding filter_map map_map comp_def
    by (simp add: relabel_relabel) (rule filter_cong [OF refl], metis lcb_idx_relabel_eq)
  finally show "filter (\<lambda>x. lcb_idx k = lcb_idx x) (sort_key lcb_idx lcb)
       = filter (\<lambda>x. lcb_idx k = lcb_idx x) ?xs"
    using sort_key_stable [of lcb_idx "lcb_idx k" lcb] by (simp add: eq_commute)
qed

lemma swapTrack_twice: "swapTrack a b (swapTrack a b v) = v"
  by (cases "a = b") (simp_all add: swapTrack_def fun_upd_twist)

lemma swapTracks_twice_sorts:
  "swapTracks a b (swapTracks a b v) = v\<lparr>data := map (sort_key lcb_idx) (data v)\<rparr>"
proof -
  have "swapTracks a b (swapTracks a b v)
        = (swapTrack a b (swapTrack a b v))
            \<lparr>data := map (swapBackbonesLcb a b) (map (swapBackbonesLcb a b) (data v))\<rparr>"
    by (simp add: swapTracks_def swapBackbones_def swapTrack_def)
  also have "map (swapBackbonesLcb a b) (map (swapBackbonesLcb a b) (data v))
        = map (sort_key lcb_idx) (data v)"
    by (simp add: swapBackbonesLcb_twice)
  finally show ?thesis by (simp only: swapTrack_twice)
qed

lemmas swap_defs =
  swapTracks_def swapBackbones_def swapBackbonesLcb_def swapTrack_def relabel_def

text \<open>
  C5, as the claim states it, fails: \<open>swapBackbones\<close> sorts every group by track
  index, so a group that lists track 2 before track 1 comes back from two swaps in the
  order track 1, track 2.
\<close>

theorem swapTracks_twice_counterexample:
  "map (map lcb_idx) (data (swapTracks 1 2 (swapTracks 1 2 (init exampleUnsorted)))) = [[1, 2]]
   \<and> map (map lcb_idx) (data (init exampleUnsorted)) = [[2, 1]]"
  by (simp add: init_def getGenomeRegions_def exampleUnsorted_def mkRegion_def
        setReference_def setReferenceLcb_def swap_defs)

text \<open>
  C5, amended. Swapping tracks \<open>a\<close> and \<open>b\<close> twice leaves \<open>genomeRegions\<close>, every
  region and every attribute of it unchanged, and returns each group stably sorted by
  track index. When every group is already in ascending track order, as it is after
  any swap, the two swaps are the identity on the viewer, the order of each group
  included.
\<close>

theorem swapTracks_twice:
  "swapTracks a b (swapTracks a b v) = v\<lparr>data := map (sort_key lcb_idx) (data v)\<rparr>
   \<and> ((\<forall>lcb\<in>set (data v). sorted (map lcb_idx lcb)) \<longrightarrow>
        swapTracks a b (swapTracks a b v) = v)"
proof (intro conjI impI)
  show "swapTracks a b (swapTracks a b v) = v\<lparr>data := map (sort_key lcb_idx) (data v)\<rparr>"
    by (rule swapTracks_twice_sorts)
next
  assume "\<forall>lcb\<in>set (data v). sorted (map lcb_idx lcb)"
  then have "map (sort_key lcb_idx) (data v) = data v"
    by (intro map_idI) (simp add: sort_key_id_if_sorted)
  then show "swapTracks a b (swapTracks a b v) = v"
    by (simp add: swapTracks_twice_sorts)
qed

theorem swapTracks_twice_witness:
  "swapTracks 1 2 (swapTracks 1 2 (init exampleInput))
     = (init exampleInput)\<lparr>data := map (sort_key lcb_idx) (data (init exampleInput))\<rparr>
   \<and> list_all (\<lambda>lcb. sorted (map lcb_idx lcb)) (data (init exampleInput))
   \<and> swapTracks 1 2 (swapTracks 1 2 (init exampleInput)) = init exampleInput
   \<and> map (map lcb_idx) (data (swapTracks 1 2 (init exampleInput))) = [[1, 2], [1]]"
proof -
  have h: "\<forall>lcb\<in>set (data (init exampleInput)). sorted (map lcb_idx lcb)"
    by (simp add: example_defs)
  have s: "map (map lcb_idx) (data (swapTracks 1 2 (init exampleInput))) = [[1, 2], [1]]"
    by (simp add: example_defs swap_defs)
  from swapTracks_twice [of 1 2 "init exampleInput"] h
  have a: "swapTracks 1 2 (swapTracks 1 2 (init exampleInput))
     = (init exampleInput)\<lparr>data := map (sort_key lcb_idx) (data (init exampleInput))\<rparr>"
    and b: "swapTracks 1 2 (swapTracks 1 2 (init exampleInput)) = init exampleInput"
    by blast+
  have l: "list_all (\<lambda>lcb. sorted (map lcb_idx lcb)) (data (init exampleInput))"
    unfolding list_all_iff by (rule h)
  from a l b s show ?thesis by (intro conjI)
qed

section \<open>Group membership\<close>

lemma membership_setReferenceLcb: "map membership (setReferenceLcb i lcb) = map membership lcb"
proof (cases "\<exists>r\<in>set lcb. lcb_idx r = i \<and> strand r \<noteq> ''+''")
  case True
  show ?thesis unfolding setReferenceLcb_flipped [OF True] map_map
    by (rule map_cong) (simp_all add: membership_def)
next
  case False
  show ?thesis by (simp only: setReferenceLcb_unchanged [OF False])
qed

lemma membership_setHidden: "map membership (setHidden i h lcb) = map membership lcb"
  by (induction lcb) (simp_all add: membership_def)

lemma membership_relabel: "membership (relabel a b r) = membership r"
  by (simp add: relabel_def membership_def)

lemma untracked_relabel: "untracked (relabel a b r) = untracked r"
  by (simp add: relabel_def untracked_def)

lemma members_swapBackbonesLcb:
  "image_mset membership (mset (swapBackbonesLcb a b lcb)) = image_mset membership (mset lcb)"
  by (simp add: swapBackbonesLcb_def multiset.map_comp comp_def membership_relabel)

lemma untracked_swapBackbonesLcb:
  "image_mset untracked (mset (swapBackbonesLcb a b lcb)) = image_mset untracked (mset lcb)"
  by (simp add: swapBackbonesLcb_def multiset.map_comp comp_def untracked_relabel)

lemma groupMembers_swapTracks: "groupMembers (swapTracks a b v) = groupMembers v"
  by (simp add: groupMembers_def swapTracks_def swapBackbones_def swapTrack_def
        members_swapBackbonesLcb)

text \<open>
  C7. No operation changes the group id of a region or moves a region to another
  group. \<open>setReference\<close>, \<open>hideTrack\<close> and \<open>showTrack\<close> keep, group by group and
  position by position, the id and the group id of every region. The track swap
  (\<open>moveTrackUp\<close>, \<open>moveTrackDown\<close>) keeps in every group the same regions with the same
  group ids, in another order, and changes nothing of a region but its track index.
\<close>

theorem group_membership_preserved:
  "map (map membership) (data (setReference i v)) = map (map membership) (data v)
   \<and> map (map membership) (data (hideTrack i v)) = map (map membership) (data v)
   \<and> map (map membership) (data (showTrack i v)) = map (map membership) (data v)
   \<and> groupMembers (swapTracks a b v) = groupMembers v
   \<and> groupMembers (moveTrackUp i v) = groupMembers v
   \<and> groupMembers (moveTrackDown i v) = groupMembers v
   \<and> map (\<lambda>lcb. mset (map untracked lcb)) (data (swapTracks a b v))
     = map (\<lambda>lcb. mset (map untracked lcb)) (data v)"
proof (intro conjI)
  show "map (map membership) (data (setReference i v)) = map (map membership) (data v)"
    by (simp add: setReference_def membership_setReferenceLcb)
  show "map (map membership) (data (hideTrack i v)) = map (map membership) (data v)"
    by (simp add: hideTrack_def membership_setHidden)
  show "map (map membership) (data (showTrack i v)) = map (map membership) (data v)"
    by (simp add: showTrack_def membership_setHidden)
  show "groupMembers (swapTracks a b v) = groupMembers v"
    by (rule groupMembers_swapTracks)
  show "groupMembers (moveTrackUp i v) = groupMembers v"
    by (simp add: moveTrackUp_def groupMembers_swapTracks)
  show "groupMembers (moveTrackDown i v) = groupMembers v"
    by (simp add: moveTrackDown_def groupMembers_swapTracks)
  show "map (\<lambda>lcb. mset (map untracked lcb)) (data (swapTracks a b v))
     = map (\<lambda>lcb. mset (map untracked lcb)) (data v)"
    by (simp add: swapTracks_def swapBackbones_def swapTrack_def untracked_swapBackbonesLcb)
qed

section \<open>Hiding and showing\<close>

lemma indexOf_eq:
  "indexOf xs x = (if x \<in> set xs then int (length (takeWhile (\<lambda>y. y \<noteq> x) xs)) else -1)"
  by (induction xs) (auto simp: Let_def)

lemma splice_indexOf:
  assumes "x \<in> set xs"
  shows "splice xs (indexOf xs x) = takeWhile (\<lambda>y. y \<noteq> x) xs"
proof -
  have "length (takeWhile (\<lambda>y. y \<noteq> x) xs) \<le> length xs" by (rule length_takeWhile_le)
  with assms show ?thesis
    by (simp add: indexOf_eq splice_def Let_def min_def takeWhile_eq_take [symmetric])
qed

text \<open>
  For a track that is not in the list, \<open>indexOf\<close> is \<open>-1\<close> and \<open>splice(-1)\<close> drops
  the last entry.
\<close>

lemma showTrack_not_hidden:
  "i \<notin> set (hiddenTracks v) \<Longrightarrow> hiddenTracks (showTrack i v) = butlast (hiddenTracks v)"
  by (cases "hiddenTracks v" rule: rev_cases)
     (auto simp: showTrack_def indexOf_eq splice_def Let_def butlast_conv_take)

lemma setHidden_map:
  "setHidden i h lcb = map (\<lambda>r. if lcb_idx r = i then r\<lparr>hidden := h\<rparr> else r) lcb"
  by (induction lcb) simp_all

text \<open>
  C10. When \<open>i\<close> is in the list of hidden tracks, \<open>showTrack i\<close> cuts the list down to
  the entries before the first \<open>i\<close>: the next \<open>render\<close> takes as hidden only the tracks
  of that prefix, so a track hidden after \<open>i\<close> is drawn as visible too. In \<open>data\<close> the
  flag \<open>hidden\<close> is cleared on the regions of track \<open>i\<close> and on no other region.
\<close>

theorem showTrack_truncates:
  assumes "i \<in> set (hiddenTracks v)"
  shows "hiddenTracks (showTrack i v) = takeWhile (\<lambda>j. j \<noteq> i) (hiddenTracks v)
    \<and> (\<forall>j. isHidden (showTrack i v) j = (j \<in> set (takeWhile (\<lambda>j. j \<noteq> i) (hiddenTracks v))))
    \<and> data (showTrack i v)
       = map (map (\<lambda>r. if lcb_idx r = i then r\<lparr>hidden := False\<rparr> else r)) (data v)"
proof -
  have "hiddenTracks (showTrack i v) = takeWhile (\<lambda>j. j \<noteq> i) (hiddenTracks v)"
    using assms by (simp add: showTrack_def splice_indexOf)
  moreover have "data (showTrack i v)
       = map (map (\<lambda>r. if lcb_idx r = i then r\<lparr>hidden := False\<rparr> else r)) (data v)"
    by (simp add: showTrack_def setHidden_map)
  ultimately show ?thesis by (simp add: isHidden_def)
qed

theorem showTrack_truncates_witness:
  "1 \<in> set (hiddenTracks (hideTrack 2 (hideTrack 1 (init exampleInput))))
   \<and> hiddenTracks (hideTrack 2 (hideTrack 1 (init exampleInput))) = [1, 2]
   \<and> hiddenTracks (showTrack 1 (hideTrack 2 (hideTrack 1 (init exampleInput)))) = []
   \<and> \<not> isHidden (showTrack 1 (hideTrack 2 (hideTrack 1 (init exampleInput)))) 2
   \<and> map (map hidden) (data (showTrack 1 (hideTrack 2 (hideTrack 1 (init exampleInput)))))
     = [[False, True], [True]]"
proof -
  let ?v = "hideTrack 2 (hideTrack 1 (init exampleInput))"
  have l: "hiddenTracks ?v = [1, 2]"
    by (simp add: hideTrack_def example_defs)
  then have h: "1 \<in> set (hiddenTracks ?v)" by simp
  from showTrack_truncates [OF h]
  have t: "hiddenTracks (showTrack 1 ?v) = takeWhile (\<lambda>j. j \<noteq> 1) (hiddenTracks ?v)"
    and s: "isHidden (showTrack 1 ?v) 2 = (2 \<in> set (takeWhile (\<lambda>j. j \<noteq> 1) (hiddenTracks ?v)))"
    by blast+
  have "map (map hidden) (data (showTrack 1 ?v)) = [[False, True], [True]]"
    by (simp add: showTrack_def hideTrack_def example_defs)
  with h l t s show ?thesis by simp
qed

section \<open>Properties of the cursor mapping\<close>

lemma getZoomScale_Some:
  "getZoomScale (Some ts) k = Some y \<longleftrightarrow> 0 \<le> k \<and> k < int (length ts) \<and> y = ts ! nat k"
  by (auto simp: getZoomScale_def)

lemma moveLine_Some:
  "moveLine ls k p = Some ls' \<Longrightarrow>
     0 \<le> k \<and> k < int (length ls) \<and> length ls' = length ls
     \<and> x1 (ls' ! nat k) = p \<and> x2 (ls' ! nat k) = Some p
     \<and> (\<forall>j. 0 \<le> j \<and> j \<noteq> k \<longrightarrow> ls' ! nat j = ls ! nat j)"
  by (auto simp: moveLine_def split: if_splits)

text \<open>
  The loop over the group changes neither the tracks nor the number of lines nor the
  hover position, track and group.
\<close>

lemma mapGroup_frame:
  "mapGroup t hs xp rel es c = Inr c' \<Longrightarrow>
     tracks c' = tracks c \<and> length (hoverLines c') = length (hoverLines c)
     \<and> hoverXPos c' = hoverXPos c \<and> hoverTrackID c' = hoverTrackID c
     \<and> hoverLCBID c' = hoverLCBID c"
proof (induction es arbitrary: c)
  case Nil
  then show ?case by simp
next
  case (Cons e es)
  show ?case
  proof (cases "datum e")
    case None
    with Cons.prems show ?thesis by simp
  next
    case (Some d)
    show ?thesis
    proof (cases "lcb_idx d = t")
      case True
      with Cons Some show ?thesis by simp
    next
      case False
      from Cons.prems Some False obtain x ls where
        x: "getZoomScale (tracks c) (lcb_idx d - 1) = Some x"
        and ls: "moveLine (hoverLines c) (lcb_idx d - 1) (nextXPos hs rel x d) = Some ls"
        and rest: "mapGroup t hs xp rel es
            (c\<lparr>relativeXs := (relativeXs c)(lcb_idx d - 1 \<mapsto> xp - nextXPos hs rel x d + 1),
               scales := (scales c)(lcb_idx d - 1 \<mapsto> x),
               hoverLines := ls,
               hoverBoxes := moveBox (hoverBoxes c) (lcb_idx d) (nextXPos hs rel x d - 5)\<rparr>) = Inr c'"
        by (auto simp: Let_def split: option.splits)
      from Cons.IH [OF rest] moveLine_Some [OF ls] show ?thesis by simp
    qed
  qed
qed

text \<open>The loop leaves alone every key that no other region of the selection has.\<close>

lemma mapGroup_untouched:
  "mapGroup t hs xp rel es c = Inr c' \<Longrightarrow>
   \<forall>e\<in>set es. \<forall>d. datum e = Some d \<longrightarrow> lcb_idx d \<noteq> t \<longrightarrow> lcb_idx d - 1 \<noteq> k \<Longrightarrow>
     relativeXs c' k = relativeXs c k \<and> scales c' k = scales c k
     \<and> (0 \<le> k \<longrightarrow> hoverLines c' ! nat k = hoverLines c ! nat k)"
proof (induction es arbitrary: c)
  case Nil
  then show ?case by simp
next
  case (Cons e es)
  show ?case
  proof (cases "datum e")
    case None
    with Cons.prems show ?thesis by simp
  next
    case (Some d)
    show ?thesis
    proof (cases "lcb_idx d = t")
      case True
      with Cons Some show ?thesis by simp
    next
      case False
      from Cons.prems(1) Some False obtain x ls where
        x: "getZoomScale (tracks c) (lcb_idx d - 1) = Some x"
        and ls: "moveLine (hoverLines c) (lcb_idx d - 1) (nextXPos hs rel x d) = Some ls"
        and rest: "mapGroup t hs xp rel es
            (c\<lparr>relativeXs := (relativeXs c)(lcb_idx d - 1 \<mapsto> xp - nextXPos hs rel x d + 1),
               scales := (scales c)(lcb_idx d - 1 \<mapsto> x),
               hoverLines := ls,
               hoverBoxes := moveBox (hoverBoxes c) (lcb_idx d) (nextXPos hs rel x d - 5)\<rparr>) = Inr c'"
        by (auto simp: Let_def split: option.splits)
      have k: "lcb_idx d - 1 \<noteq> k" using Cons.prems(2) Some False by simp
      have later: "\<forall>e\<in>set es. \<forall>d. datum e = Some d \<longrightarrow> lcb_idx d \<noteq> t \<longrightarrow> lcb_idx d - 1 \<noteq> k"
        using Cons.prems(2) by simp
      from Cons.IH [OF rest later] moveLine_Some [OF ls] k show ?thesis by simp
    qed
  qed
qed

text \<open>
  When the selection has at most one shape per track, the loop records for every shape
  of another track the position and the offset computed from that shape's region.
\<close>

lemma mapGroup_member:
  assumes "mapGroup t hs xp rel es c = Inr c'"
    and "distinct (map (\<lambda>e. lcb_idx (the (datum e))) es)"
    and "e \<in> set es" and "datum e = Some r" and "lcb_idx r \<noteq> t"
  shows "\<exists>y. getZoomScale (tracks c) (lcb_idx r - 1) = Some y
     \<and> relativeXs c' (lcb_idx r - 1) = Some (xp - nextXPos hs rel y r + 1)
     \<and> scales c' (lcb_idx r - 1) = Some y
     \<and> x1 (hoverLines c' ! nat (lcb_idx r - 1)) = nextXPos hs rel y r
     \<and> x2 (hoverLines c' ! nat (lcb_idx r - 1)) = Some (nextXPos hs rel y r)"
  using assms
proof (induction es arbitrary: c)
  case Nil
  then show ?case by simp
next
  case (Cons a es)
  show ?case
  proof (cases "datum a")
    case None
    with Cons.prems show ?thesis by simp
  next
    case (Some d)
    show ?thesis
    proof (cases "lcb_idx d = t")
      case True
      then have rest: "mapGroup t hs xp rel es c = Inr c'" using Cons.prems(1) Some by simp
      have "e \<noteq> a" using True Some Cons.prems(4,5) by auto
      then have "e \<in> set es" using Cons.prems(3) by simp
      moreover have "distinct (map (\<lambda>e. lcb_idx (the (datum e))) es)" using Cons.prems(2) by simp
      ultimately show ?thesis using Cons.IH [OF rest] Cons.prems(4,5) by blast
    next
      case False
      from Cons.prems(1) Some False obtain x ls where
        x: "getZoomScale (tracks c) (lcb_idx d - 1) = Some x"
        and ls: "moveLine (hoverLines c) (lcb_idx d - 1) (nextXPos hs rel x d) = Some ls"
        and rest: "mapGroup t hs xp rel es
            (c\<lparr>relativeXs := (relativeXs c)(lcb_idx d - 1 \<mapsto> xp - nextXPos hs rel x d + 1),
               scales := (scales c)(lcb_idx d - 1 \<mapsto> x),
               hoverLines := ls,
               hoverBoxes := moveBox (hoverBoxes c) (lcb_idx d) (nextXPos hs rel x d - 5)\<rparr>) = Inr c'"
        (is "mapGroup t hs xp rel es ?c1 = Inr c'")
        by (auto simp: Let_def split: option.splits)
      have dist: "distinct (map (\<lambda>e. lcb_idx (the (datum e))) es)" using Cons.prems(2) by simp
      show ?thesis
      proof (cases "e = a")
        case True
        then have rd: "r = d" using Some Cons.prems(4) by simp
        have "\<forall>e'\<in>set es. \<forall>d'. datum e' = Some d' \<longrightarrow> lcb_idx d' \<noteq> t \<longrightarrow> lcb_idx d' - 1 \<noteq> lcb_idx d - 1"
        proof (intro ballI allI impI)
          fix e' d' assume "e' \<in> set es" "datum e' = Some d'"
          then have "lcb_idx d' \<in> set (map (\<lambda>e. lcb_idx (the (datum e))) es)" by force
          moreover have "lcb_idx d \<notin> set (map (\<lambda>e. lcb_idx (the (datum e))) es)"
            using Cons.prems(2) Some by simp
          ultimately show "lcb_idx d' - 1 \<noteq> lcb_idx d - 1" by auto
        qed
        from mapGroup_untouched [OF rest this] moveLine_Some [OF ls] x
        show ?thesis unfolding rd by simp
      next
        case False
        then have "e \<in> set es" using Cons.prems(3) by simp
        from Cons.IH [OF rest dist this Cons.prems(4,5)] show ?thesis by simp
      qed
    qed
  qed
qed

text \<open>What a completed hover over region \<open>d\<close> leaves in the cursor.\<close>

lemma hoverRegion_result:
  assumes run: "hoverRegion shapes d mouseX c = Inr c'"
    and ts: "tracks c = Some ts"
  defines "x \<equiv> ts ! nat (lcb_idx d - 1)"
  defines "snapped \<equiv> scale_fn x (real_of_int (round (invert x mouseX)))"
  defines "relOffset \<equiv> snapped - scale_fn x (real_of_int (start d))"
  shows "hoverXPos c' = Some snapped"
    and "hoverTrackID c' = Some (lcb_idx d)"
    and "hoverLCBID c' = Some (groupID d)"
    and "relativeXs c' (lcb_idx d - 1) = Some 0"
    and "x1 (hoverLines c' ! nat (lcb_idx d - 1)) = snapped"
    and "\<And>e r. distinct (map (\<lambda>e. lcb_idx (the (datum e))) (selectGroup shapes (groupID d)))
          \<Longrightarrow> e \<in> set (selectGroup shapes (groupID d)) \<Longrightarrow> datum e = Some r
          \<Longrightarrow> lcb_idx r \<noteq> lcb_idx d \<Longrightarrow>
          relativeXs c' (lcb_idx r - 1)
            = Some (snapped - nextXPos (strand d) relOffset (ts ! nat (lcb_idx r - 1)) r + 1)
          \<and> x1 (hoverLines c' ! nat (lcb_idx r - 1))
            = nextXPos (strand d) relOffset (ts ! nat (lcb_idx r - 1)) r
          \<and> x2 (hoverLines c' ! nat (lcb_idx r - 1))
            = Some (nextXPos (strand d) relOffset (ts ! nat (lcb_idx r - 1)) r)"
proof -
  let ?t = "lcb_idx d"
  from run ts obtain x' where x': "getZoomScale (Some ts) (?t - 1) = Some x'"
    by (auto simp: hoverRegion_def Let_def split: option.splits)
  then have xx: "x' = x" and range: "0 \<le> ?t - 1"
    by (simp_all add: getZoomScale_Some x_def)
  let ?c2 = "c\<lparr>hoverTrackID := Some ?t, hoverXPos := Some snapped,
               relativeXs := (relativeXs c)(?t - 1 \<mapsto> 0),
               scales := (scales c)(?t - 1 \<mapsto> x)\<rparr>"
  from run ts x' xx obtain ls where ls: "moveLine (hoverLines c) (?t - 1) snapped = Some ls"
    by (auto simp: hoverRegion_def Let_def snapped_def split: option.splits)
  let ?c4 = "?c2\<lparr>hoverLines := ls, hoverBoxes := moveBox (hoverBoxes c) ?t (snapped - 5),
                 hoverLCBID := Some (groupID d)\<rparr>"
  from run ts x' xx ls obtain c5 where
    grp: "mapGroup ?t (strand d) snapped relOffset (selectGroup shapes (groupID d)) ?c4 = Inr c5"
    and c': "c' = c5\<lparr>lcbLength := Some (end_pos d - start d + 1),
                      ntPos := Some (round (invert x snapped))\<rparr>"
    by (auto simp: hoverRegion_def Let_def snapped_def relOffset_def split: option.splits sum.splits)
  note frame = mapGroup_frame [OF grp]
  have skip: "\<forall>e\<in>set (selectGroup shapes (groupID d)).
      \<forall>r. datum e = Some r \<longrightarrow> lcb_idx r \<noteq> ?t \<longrightarrow> lcb_idx r - 1 \<noteq> ?t - 1"
    by simp
  note own = mapGroup_untouched [OF grp skip]
  show "hoverXPos c' = Some snapped" using frame c' by simp
  show "hoverTrackID c' = Some (lcb_idx d)" using frame c' by simp
  show "hoverLCBID c' = Some (groupID d)" using frame c' by simp
  show "relativeXs c' (lcb_idx d - 1) = Some 0" using own c' by simp
  show "x1 (hoverLines c' ! nat (lcb_idx d - 1)) = snapped"
    using own c' range moveLine_Some [OF ls] by simp
  fix e r
  assume dist: "distinct (map (\<lambda>e. lcb_idx (the (datum e))) (selectGroup shapes (groupID d)))"
    and e: "e \<in> set (selectGroup shapes (groupID d))" "datum e = Some r"
    and other: "lcb_idx r \<noteq> lcb_idx d"
  from mapGroup_member [OF grp dist e other] ts
  show "relativeXs c' (lcb_idx r - 1)
            = Some (snapped - nextXPos (strand d) relOffset (ts ! nat (lcb_idx r - 1)) r + 1)
          \<and> x1 (hoverLines c' ! nat (lcb_idx r - 1))
            = nextXPos (strand d) relOffset (ts ! nat (lcb_idx r - 1)) r
          \<and> x2 (hoverLines c' ! nat (lcb_idx r - 1))
            = Some (nextXPos (strand d) relOffset (ts ! nat (lcb_idx r - 1)) r)"
    by (auto simp: c' getZoomScale_Some)
qed

text \<open>
  A cursor that was given no \<open>tracks\<close> throws on every hover over a region, after it
  has stored the track of the region.
\<close>

lemma hoverRegion_without_tracks:
  "tracks c = None \<Longrightarrow>
     hoverRegion shapes d mouseX c = Inl (TypeError, c\<lparr>hoverTrackID := Some (lcb_idx d)\<rparr>)"
  by (simp add: hoverRegion_def getZoomScale_def)

lemma mousemove_region:
  "tagName e = ''rect'' \<Longrightarrow> RegionClass \<in> set (classList e) \<Longrightarrow> datum e = Some d \<Longrightarrow>
     mousemove shapes (Some e) mouseX c = hoverRegion shapes d mouseX c"
  by (simp add: mousemove_def)

text \<open>
  C1. A completed hover over region \<open>d\<close> snaps the pointer to
  \<open>snapped = scale (round (invert mouseX))\<close> on the scale of \<open>d\<close>'s track and takes
  \<open>relOffset = snapped - scale (start d)\<close>. For every region \<open>r\<close> of another track
  among the shapes of \<open>d\<close>'s group (at most one shape per track), the cursor line of
  \<open>r\<close>'s track is put at the scale of \<open>r\<close>'s track applied to \<open>start r\<close> plus
  \<open>relOffset\<close> when the strands are equal, and at that scale applied to \<open>end r\<close> minus
  \<open>relOffset\<close> when they differ.
\<close>

theorem mapHover_target_position:
  assumes "mousemove shapes (Some e) mouseX c = Inr c'"
    and "tagName e = ''rect''" and "RegionClass \<in> set (classList e)" and "datum e = Some d"
    and "tracks c = Some ts"
    and "distinct (map (\<lambda>e. lcb_idx (the (datum e))) (selectGroup shapes (groupID d)))"
    and "e' \<in> set (selectGroup shapes (groupID d))" and "datum e' = Some r"
    and "lcb_idx r \<noteq> lcb_idx d"
  shows
    "(let x = ts ! nat (lcb_idx d - 1);
          y = ts ! nat (lcb_idx r - 1);
          snapped = scale_fn x (real_of_int (round (invert x mouseX)));
          relOffset = snapped - scale_fn x (real_of_int (start d));
          targetPos = (if strand r = strand d
                       then scale_fn y (real_of_int (start r)) + relOffset
                       else scale_fn y (real_of_int (end_pos r)) - relOffset)
      in hoverXPos c' = Some snapped
         \<and> x1 (hoverLines c' ! nat (lcb_idx d - 1)) = snapped
         \<and> x1 (hoverLines c' ! nat (lcb_idx r - 1)) = targetPos
         \<and> x2 (hoverLines c' ! nat (lcb_idx r - 1)) = Some targetPos)"
proof -
  from assms(1-4) have run: "hoverRegion shapes d mouseX c = Inr c'"
    by (simp add: mousemove_region)
  from hoverRegion_result(1,5) [OF run assms(5)]
       hoverRegion_result(6) [OF run assms(5) assms(6-9)]
  show ?thesis by (auto simp: Let_def nextXPos_def)
qed

text \<open>
  C9. After a completed hover over region \<open>d\<close> the offset recorded in \<open>relativeXs\<close>
  for the hovered track is 0, and for every region \<open>r\<close> of another track among the
  shapes of the group it is the hovered position minus the position of \<open>r\<close>'s cursor
  line plus 1: where the two positions are equal the offset is 1.
\<close>

theorem mapHover_offsets:
  assumes "mousemove shapes (Some e) mouseX c = Inr c'"
    and "tagName e = ''rect''" and "RegionClass \<in> set (classList e)" and "datum e = Some d"
    and "tracks c = Some ts"
    and "distinct (map (\<lambda>e. lcb_idx (the (datum e))) (selectGroup shapes (groupID d)))"
    and "e' \<in> set (selectGroup shapes (groupID d))" and "datum e' = Some r"
    and "lcb_idx r \<noteq> lcb_idx d"
  shows
    "(let x = ts ! nat (lcb_idx d - 1);
          hoveredPos = scale_fn x (real_of_int (round (invert x mouseX)));
          targetPos = x1 (hoverLines c' ! nat (lcb_idx r - 1))
      in hoverXPos c' = Some hoveredPos
         \<and> relativeXs c' (lcb_idx d - 1) = Some 0
         \<and> relativeXs c' (lcb_idx r - 1) = Some (hoveredPos - targetPos + 1)
         \<and> (targetPos = hoveredPos \<longrightarrow> relativeXs c' (lcb_idx r - 1) = Some 1))"
proof -
  from assms(1-4) have run: "hoverRegion shapes d mouseX c = Inr c'"
    by (simp add: mousemove_region)
  from hoverRegion_result(1,4) [OF run assms(5)]
       hoverRegion_result(6) [OF run assms(5) assms(6-9)]
  show ?thesis by (auto simp: Let_def)
qed

lemmas cursor_example_defs =
  mousemove_def shapeOf_def exampleRegionA_def exampleRegionB_def exampleRegionC_def
  mkRegion_def hoverRegion_def exampleCursor_def newCursor_def getZoomScale_def
  exampleScale_def Let_def moveLine_def moveBox_def selectGroup_def nextXPos_def

lemma exampleShapes_eq:
  "exampleShapes = [shapeOf exampleRegionA, shapeOf exampleRegionB,
     shapeOf ((mkRegion 300 400 ''-'' 2)\<lparr>region_id := 3, groupID := 1\<rparr>)]"
  by (simp add: exampleShapes_def example_defs exampleRegionA_def exampleRegionB_def
        numeral_2_eq_2 numeral_3_eq_3)

lemma exampleHovered_eq:
  "exampleHovered =
     \<lparr>tracks = Some [exampleScale, exampleScale], hoverXPos = Some 15,
      hoverTrackID = Some 1, hoverLCBID = Some 0,
      scales = [0 \<mapsto> exampleScale, 1 \<mapsto> exampleScale],
      relativeXs = [0 \<mapsto> 0, 1 \<mapsto> - 44],
      hoverLines = [\<lparr>x1 = 15, x2 = Some 15, line_opacity = None\<rparr>,
                    \<lparr>x1 = 60, x2 = Some 60, line_opacity = None\<rparr>],
      hoverBoxes = [\<lparr>box_x = 10, box_opacity = None\<rparr>, \<lparr>box_x = 55, box_opacity = None\<rparr>],
      lcbLength = Some 101, ntPos = Some 150\<rparr>"
  by (simp add: exampleHovered_def exampleShapes_eq cursor_example_defs round_def
        numeral_2_eq_2)

lemma example_run:
  "mousemove exampleShapes (Some (shapeOf exampleRegionA)) (1502 / 100) exampleCursor
     = Inr exampleHovered"
proof -
  have "\<exists>c. mousemove exampleShapes (Some (shapeOf exampleRegionA)) (1502 / 100) exampleCursor = Inr c"
    by (simp add: exampleShapes_eq cursor_example_defs)
  then show ?thesis by (auto simp: exampleHovered_def)
qed

theorem mapHover_target_position_witness:
  "mousemove exampleShapes (Some (shapeOf exampleRegionA)) (1502 / 100) exampleCursor
     = Inr exampleHovered
   \<and> tagName (shapeOf exampleRegionA) = ''rect''
   \<and> RegionClass \<in> set (classList (shapeOf exampleRegionA))
   \<and> datum (shapeOf exampleRegionA) = Some exampleRegionA
   \<and> tracks exampleCursor = Some [exampleScale, exampleScale]
   \<and> distinct (map (\<lambda>e. lcb_idx (the (datum e)))
        (selectGroup exampleShapes (groupID exampleRegionA)))
   \<and> shapeOf exampleRegionB \<in> set (selectGroup exampleShapes (groupID exampleRegionA))
   \<and> datum (shapeOf exampleRegionB) = Some exampleRegionB
   \<and> lcb_idx exampleRegionB \<noteq> lcb_idx exampleRegionA
   \<and> strand exampleRegionB \<noteq> strand exampleRegionA
   \<and> hoverXPos exampleHovered = Some 15
   \<and> x1 (hoverLines exampleHovered ! 0) = 15
   \<and> x1 (hoverLines exampleHovered ! 1) = scale_fn exampleScale 650 - (15 - scale_fn exampleScale 100)
   \<and> x1 (hoverLines exampleHovered ! 1) = 60
   \<and> x2 (hoverLines exampleHovered ! 1) = Some 60"
proof -
  have h2: "tagName (shapeOf exampleRegionA) = ''rect''" by (simp add: shapeOf_def)
  have h3: "RegionClass \<in> set (classList (shapeOf exampleRegionA))" by (simp add: shapeOf_def)
  have h4: "datum (shapeOf exampleRegionA) = Some exampleRegionA" by (simp add: shapeOf_def)
  have h5: "tracks exampleCursor = Some [exampleScale, exampleScale]"
    by (simp add: exampleCursor_def newCursor_def)
  have h6: "distinct (map (\<lambda>e. lcb_idx (the (datum e)))
        (selectGroup exampleShapes (groupID exampleRegionA)))"
    by (simp add: exampleShapes_eq cursor_example_defs)
  have h7: "shapeOf exampleRegionB \<in> set (selectGroup exampleShapes (groupID exampleRegionA))"
    by (simp add: exampleShapes_eq cursor_example_defs)
  have h8: "datum (shapeOf exampleRegionB) = Some exampleRegionB" by (simp add: shapeOf_def)
  have h9: "lcb_idx exampleRegionB \<noteq> lcb_idx exampleRegionA"
    by (simp add: exampleRegionA_def exampleRegionB_def mkRegion_def)
  have st: "strand exampleRegionB \<noteq> strand exampleRegionA"
    by (simp add: exampleRegionA_def exampleRegionB_def mkRegion_def)
  have "hoverXPos exampleHovered = Some 15
   \<and> x1 (hoverLines exampleHovered ! 0) = 15
   \<and> x1 (hoverLines exampleHovered ! 1) = scale_fn exampleScale 650 - (15 - scale_fn exampleScale 100)
   \<and> x1 (hoverLines exampleHovered ! 1) = 60
   \<and> x2 (hoverLines exampleHovered ! 1) = Some 60"
    using mapHover_target_position [OF example_run h2 h3 h4 h5 h6 h7 h8 h9]
    by (simp add: Let_def exampleRegionA_def exampleRegionB_def mkRegion_def exampleScale_def
          round_def)
  with example_run h2 h3 h4 h5 h6 h7 h8 h9 st show ?thesis by (intro conjI) simp_all
qed

lemma aligned_run:
  "mousemove exampleAligned (Some (shapeOf exampleRegionA)) 15 exampleCursor
     = Inr exampleCoincident"
proof -
  have "\<exists>c. mousemove exampleAligned (Some (shapeOf exampleRegionA)) 15 exampleCursor = Inr c"
    by (simp add: exampleAligned_def cursor_example_defs)
  then show ?thesis by (auto simp: exampleCoincident_def)
qed

theorem mapHover_offsets_witness:
  "mousemove exampleAligned (Some (shapeOf exampleRegionA)) 15 exampleCursor
     = Inr exampleCoincident
   \<and> tagName (shapeOf exampleRegionA) = ''rect''
   \<and> RegionClass \<in> set (classList (shapeOf exampleRegionA))
   \<and> datum (shapeOf exampleRegionA) = Some exampleRegionA
   \<and> tracks exampleCursor = Some [exampleScale, exampleScale]
   \<and> distinct (map (\<lambda>e. lcb_idx (the (datum e)))
        (selectGroup exampleAligned (groupID exampleRegionA)))
   \<and> shapeOf exampleRegionC \<in> set (selectGroup exampleAligned (groupID exampleRegionA))
   \<and> datum (shapeOf exampleRegionC) = Some exampleRegionC
   \<and> lcb_idx exampleRegionC \<noteq> lcb_idx exampleRegionA
   \<and> hoverXPos exampleCoincident = Some 15
   \<and> x1 (hoverLines exampleCoincident ! 1) = 15
   \<and> relativeXs exampleCoincident 0 = Some 0
   \<and> relativeXs exampleCoincident 1 = Some 1"
proof -
  have h2: "tagName (shapeOf exampleRegionA) = ''rect''" by (simp add: shapeOf_def)
  have h3: "RegionClass \<in> set (classList (shapeOf exampleRegionA))" by (simp add: shapeOf_def)
  have h4: "datum (shapeOf exampleRegionA) = Some exampleRegionA" by (simp add: shapeOf_def)
  have h5: "tracks exampleCursor = Some [exampleScale, exampleScale]"
    by (simp add: exampleCursor_def newCursor_def)
  have h6: "distinct (map (\<lambda>e. lcb_idx (the (datum e)))
        (selectGroup exampleAligned (groupID exampleRegionA)))"
    by (simp add: exampleAligned_def cursor_example_defs)
  have h7: "shapeOf exampleRegionC \<in> set (selectGroup exampleAligned (groupID exampleRegionA))"
    by (simp add: exampleAligned_def cursor_example_defs)
  have h8: "datum (shapeOf exampleRegionC) = Some exampleRegionC" by (simp add: shapeOf_def)
  have h9: "lcb_idx exampleRegionC \<noteq> lcb_idx exampleRegionA"
    by (simp add: exampleRegionA_def exampleRegionC_def mkRegion_def)
  have pos: "x1 (hoverLines exampleCoincident ! 1) = 15"
    by (simp add: exampleCoincident_def exampleAligned_def cursor_example_defs)
  have "hoverXPos exampleCoincident = Some 15
   \<and> relativeXs exampleCoincident 0 = Some 0
   \<and> relativeXs exampleCoincident 1 = Some 1"
    using mapHover_offsets [OF aligned_run h2 h3 h4 h5 h6 h7 h8 h9] pos
    by (simp add: Let_def exampleRegionA_def exampleRegionC_def mkRegion_def exampleScale_def)
  with aligned_run h2 h3 h4 h5 h6 h7 h8 h9 pos show ?thesis by (intro conjI) simp_all
qed

lemma hideCursors_click: "click (hideCursors c) = click c"
  by (simp add: click_def hideCursors_def)

text \<open>
  C6, amended. A pointer over an element that is not a region \<open>rect\<close> never throws.
  Over a cursor line or a hover box the handler changes nothing. Over anything else it
  sets the opacity of every cursor line and every hover box to 0 and changes nothing
  else: the positions of the lines and boxes, \<open>hoverXPos\<close>, \<open>hoverTrackID\<close>,
  \<open>hoverLCBID\<close>, \<open>relativeXs\<close> and \<open>scales\<close> stay as the last hover over a region left
  them, and a click reports what it would have reported before.
\<close>

theorem hover_outside_region:
  assumes "\<not> (tagName e = ''rect'' \<and> RegionClass \<in> set (classList e))"
  shows "mousemove shapes (Some e) mouseX c =
           Inr (if CursorLineClass \<in> set (classList e) \<or> HoverBoxClass \<in> set (classList e)
                then c else hideCursors c)
    \<and> map line_opacity (hoverLines (hideCursors c)) = replicate (length (hoverLines c)) (Some 0)
    \<and> map box_opacity (hoverBoxes (hideCursors c)) = replicate (length (hoverBoxes c)) (Some 0)
    \<and> map x1 (hoverLines (hideCursors c)) = map x1 (hoverLines c)
    \<and> map x2 (hoverLines (hideCursors c)) = map x2 (hoverLines c)
    \<and> map box_x (hoverBoxes (hideCursors c)) = map box_x (hoverBoxes c)
    \<and> relativeXs (hideCursors c) = relativeXs c
    \<and> scales (hideCursors c) = scales c
    \<and> hoverXPos (hideCursors c) = hoverXPos c
    \<and> hoverTrackID (hideCursors c) = hoverTrackID c
    \<and> hoverLCBID (hideCursors c) = hoverLCBID c
    \<and> click (hideCursors c) = click c"
proof -
  have "mousemove shapes (Some e) mouseX c =
           Inr (if CursorLineClass \<in> set (classList e) \<or> HoverBoxClass \<in> set (classList e)
                then c else hideCursors c)"
    using assms by (auto simp: mousemove_def)
  moreover have "map line_opacity (hoverLines (hideCursors c))
      = replicate (length (hoverLines c)) (Some 0)"
    by (simp add: hideCursors_def comp_def map_replicate_const)
  moreover have "map box_opacity (hoverBoxes (hideCursors c))
      = replicate (length (hoverBoxes c)) (Some 0)"
    by (simp add: hideCursors_def comp_def map_replicate_const)
  ultimately show ?thesis
    by (simp add: hideCursors_click) (simp add: hideCursors_def comp_def)
qed

text \<open>
  C6, as the claim states it, fails: after the pointer has been over the first region
  of the example, moving it over the background hides the cursors, but \<open>relativeXs\<close>
  still holds the offsets of both tracks, the lines keep their positions, and a click
  reports them.
\<close>

theorem hover_outside_region_counterexample:
  "mousemove exampleShapes (Some (shapeOf exampleRegionA)) (1502 / 100) exampleCursor
     = Inr exampleHovered
   \<and> mousemove exampleShapes (Some exampleBackground) (1502 / 100) exampleHovered
     = Inr (hideCursors exampleHovered)
   \<and> relativeXs (hideCursors exampleHovered) 0 = Some 0
   \<and> relativeXs (hideCursors exampleHovered) 1 = Some (- 44)
   \<and> click_relativeXs (click (hideCursors exampleHovered)) 1 = Some (- 44)
   \<and> xPos (click (hideCursors exampleHovered)) = Some 15
   \<and> map x1 (hoverLines (hideCursors exampleHovered)) = [15, 60]"
proof -
  have "mousemove exampleShapes (Some exampleBackground) (1502 / 100) exampleHovered
     = Inr (hideCursors exampleHovered)"
    by (simp add: mousemove_def exampleBackground_def)
  moreover have "relativeXs (hideCursors exampleHovered) 0 = Some 0
   \<and> relativeXs (hideCursors exampleHovered) 1 = Some (- 44)
   \<and> click_relativeXs (click (hideCursors exampleHovered)) 1 = Some (- 44)
   \<and> xPos (click (hideCursors exampleHovered)) = Some 15
   \<and> map x1 (hoverLines (hideCursors exampleHovered)) = [15, 60]"
    by (simp add: exampleHovered_eq hideCursors_def click_def)
  ultimately show ?thesis using example_run by simp
qed

theorem hover_outside_region_witness:
  "\<not> (tagName exampleBackground = ''rect'' \<and> RegionClass \<in> set (classList exampleBackground))
   \<and> mousemove exampleShapes (Some exampleBackground) (1502 / 100) exampleHovered
     = Inr (hideCursors exampleHovered)
   \<and> map line_opacity (hoverLines (hideCursors exampleHovered)) = [Some 0, Some 0]
   \<and> map box_opacity (hoverBoxes (hideCursors exampleHovered)) = [Some 0, Some 0]
   \<and> click (hideCursors exampleHovered) = click exampleHovered
   \<and> relativeXs (hideCursors exampleHovered) = relativeXs exampleHovered"
proof -
  have h: "\<not> (tagName exampleBackground = ''rect'' \<and> RegionClass \<in> set (classList exampleBackground))"
    by (simp add: exampleBackground_def)
  have n: "length (hoverLines exampleHovered) = 2" "length (hoverBoxes exampleHovered) = 2"
    by (simp_all add: exampleHovered_eq)
  from hover_outside_region [OF h, of exampleShapes "1502 / 100" exampleHovered] h n
  show ?thesis by (simp add: exampleBackground_def numeral_2_eq_2)
qed

end
